theory Spec2Isabelle
  imports Complex_Main
begin

section \<open>The mutation generator of msprime (lib/mutgen.c)\<close>

text \<open>
  A shallow embedding of \<^verbatim>\<open>lib/mutgen.c\<close>. C doubles are modelled as reals (NaN and
  rounding are outside the model), identifiers (\<^verbatim>\<open>node_id_t\<close>, \<^verbatim>\<open>site_id_t\<close>,
  \<^verbatim>\<open>mutation_id_t\<close>, with \<^verbatim>\<open>TSK_NULL\<close> = -1) as integers, sizes and counts as
  naturals, byte strings as \<open>string\<close>. A function that returns an \<^verbatim>\<open>int\<close> status and
  updates \<^verbatim>\<open>self\<close> in place returns the pair of the status (\<open>None\<close> for 0) and the
  updated state here.
\<close>

subsection \<open>Status codes\<close>

text \<open>
  Error codes of the tskit library, as far as this file can meet them; \<^verbatim>\<open>msp_set_tsk_error\<close>
  wraps them into an msprime status (\<open>MSP_ERR_TSK\<close>).
\<close>

datatype tsk_error =
    TSK_ERR_NO_MEMORY
  | TSK_ERR_BAD_OFFSET
  | TSK_ERR_NODE_OUT_OF_BOUNDS
  | TSK_ERR_TABLE_OVERFLOW

text \<open>
  The last three constructors are not return values of the C code. They mark the points
  where the C execution has no defined result: a read outside an array, a read of a cell
  that \<^verbatim>\<open>malloc\<close> returned and nothing wrote, and a failed \<^verbatim>\<open>assert\<close>.
\<close>

datatype error =
    MSP_ERR_NO_MEMORY
  | MSP_ERR_BAD_PARAM_VALUE
  | MSP_ERR_BAD_MUTATION_MAP_SIZE
  | MSP_ERR_BAD_MUTATION_MAP_POSITION
  | MSP_ERR_BAD_MUTATION_MAP_RATE
  | MSP_ERR_INCOMPATIBLE_MUTATION_MAP
  | MSP_ERR_DUPLICATE_SITE_POSITION
  | MSP_ERR_TSK tsk_error
  | FAULT_OUT_OF_BOUNDS
  | FAULT_UNINITIALISED
  | FAULT_ASSERT

definition msp_set_tsk_error :: "tsk_error \<Rightarrow> error" where
  "msp_set_tsk_error e = MSP_ERR_TSK e"

definition TSK_NULL :: int where
  "TSK_NULL = -1"

subsection \<open>Arrays\<close>

text \<open>A read \<^verbatim>\<open>a[i]\<close> of an array of known extent.\<close>

definition array_get :: "'a list \<Rightarrow> nat \<Rightarrow> error + 'a" where
  "array_get xs i = (if i < length xs then Inr (xs ! i) else Inl FAULT_OUT_OF_BOUNDS)"

text \<open>A read \<^verbatim>\<open>a[i]\<close> with a signed index.\<close>

definition array_get_int :: "'a list \<Rightarrow> int \<Rightarrow> error + 'a" where
  "array_get_int xs i =
     (if 0 \<le> i \<and> nat i < length xs then Inr (xs ! nat i) else Inl FAULT_OUT_OF_BOUNDS)"

text \<open>
  A heap array obtained from \<^verbatim>\<open>malloc\<close> holds one cell per element; a cell is \<open>None\<close>
  until it is written.
\<close>

definition cell_get :: "'a option list \<Rightarrow> nat \<Rightarrow> error + 'a" where
  "cell_get xs i =
     (if i < length xs
      then (case xs ! i of None \<Rightarrow> Inl FAULT_UNINITIALISED | Some v \<Rightarrow> Inr v)
      else Inl FAULT_OUT_OF_BOUNDS)"

subsection \<open>The platform\<close>

text \<open>
  What the C code takes from its headers and its run-time system and this file does not
  declare: the sizes of three record types, whether the heap serves a request of a
  given size, and the number of rows a table can hold before an append fails.
\<close>

record env =
  sizeof_site :: nat
  sizeof_mutation :: nat
  sizeof_avl_node :: nat
  malloc_ok :: "nat \<Rightarrow> bool"
  max_rows :: nat

subsection \<open>The generator's state\<close>

record tsk_mutation_t =
  m_id :: int
  m_node :: int
  m_parent :: int
  m_derived_state :: string
  m_metadata :: string

record tsk_site_t =
  s_position :: real
  s_ancestral_state :: string
  s_metadata :: string
  s_mutations :: "tsk_mutation_t list"

text \<open>
  \<^verbatim>\<open>self->map\<close>: the two heap arrays and the size field. An array that \<^verbatim>\<open>malloc\<close>
  refused (a null pointer) has no cell.
\<close>

record mutation_map_t =
  map_size :: nat
  map_position :: "real option list"
  map_rate :: "real option list"

text \<open>Modelled from the spec: the arena (\<^verbatim>\<open>tsk_blkalloc_t\<close>), a list of blocks of one
  fixed capacity with a fill mark in the current block.\<close>

record tsk_blkalloc_t =
  chunk_size :: nat
  num_chunks :: nat
  blk_top :: nat

record 'r mutgen_t =
  alphabet :: int
  rng :: 'r
  start_time :: real
  end_time :: real
  block_size :: nat
  sites :: "tsk_site_t list"
  allocator :: tsk_blkalloc_t
  mutation_map :: mutation_map_t

subsection \<open>\<^verbatim>\<open>mutgen_set_map\<close>\<close>

text \<open>
  The loop of \<^verbatim>\<open>mutgen_set_map\<close> from index \<open>j\<close>. The arrays \<open>position\<close> and \<open>rate\<close>
  are the caller's; the map \<open>m\<close> holds the fresh arrays.
\<close>

function set_map_loop ::
  "real list \<Rightarrow> real list \<Rightarrow> nat \<Rightarrow> nat \<Rightarrow> mutation_map_t \<Rightarrow> error option \<times> mutation_map_t"
where
  "set_map_loop position rate sz j m =
     (if j < sz then
        (case array_get position j of
           Inl f \<Rightarrow> (Some f, m)
         | Inr pj \<Rightarrow>
             (if j > 0 \<and> position ! (j - 1) \<ge> pj then (Some MSP_ERR_BAD_MUTATION_MAP_POSITION, m)
              else
                (case array_get rate j of
                   Inl f \<Rightarrow> (Some f, m)
                 | Inr rj \<Rightarrow>
                     (if rj < 0 then (Some MSP_ERR_BAD_MUTATION_MAP_RATE, m)
                      else set_map_loop position rate sz (j + 1)
                             (m\<lparr>map_position := (map_position m)[j := Some pj],
                                map_rate := (map_rate m)[j := Some rj]\<rparr>)))))
      else (None, m))"
  by pat_completeness auto
termination
  by (relation "measure (\<lambda>(position, rate, sz, j, m). sz - j)") auto

declare set_map_loop.simps [simp del]

text \<open>
  \<^verbatim>\<open>mutgen_set_map\<close>. The old arrays are released and the new ones obtained before
  anything is checked. \<^verbatim>\<open>sizeof(double)\<close> is 8.
\<close>

definition mutgen_set_map ::
  "env \<Rightarrow> 'r mutgen_t \<Rightarrow> nat \<Rightarrow> real list \<Rightarrow> real list \<Rightarrow> error option \<times> 'r mutgen_t"
where
  "mutgen_set_map env self sz position rate =
     (let pos_ok = malloc_ok env ((sz + 1) * 8);
          rate_ok = malloc_ok env (sz * 8);
          m0 = (mutation_map self)
                 \<lparr>map_position := (if pos_ok then replicate (sz + 1) None else []),
                  map_rate := (if rate_ok then replicate sz None else [])\<rparr>
      in if \<not> pos_ok \<or> \<not> rate_ok then (Some MSP_ERR_NO_MEMORY, self\<lparr>mutation_map := m0\<rparr>)
         else if sz < 1 then (Some MSP_ERR_BAD_MUTATION_MAP_SIZE, self\<lparr>mutation_map := m0\<rparr>)
         else
           (case array_get position 0 of
              Inl f \<Rightarrow> (Some f, self\<lparr>mutation_map := m0\<rparr>)
            | Inr p0 \<Rightarrow>
                (if p0 \<noteq> 0
                 then (Some MSP_ERR_BAD_MUTATION_MAP_POSITION, self\<lparr>mutation_map := m0\<rparr>)
                 else
                   (case set_map_loop position rate sz 0 (m0\<lparr>map_size := sz\<rparr>) of
                      (ret, m) \<Rightarrow> (ret, self\<lparr>mutation_map := m\<rparr>)))))"

text \<open>\<^verbatim>\<open>mutgen_set_rate\<close>: a single rate over the whole region.\<close>

definition mutgen_set_rate :: "env \<Rightarrow> 'r mutgen_t \<Rightarrow> real \<Rightarrow> error option \<times> 'r mutgen_t" where
  "mutgen_set_rate env self r = mutgen_set_map env self 1 [0] [r]"

subsection \<open>The table collection\<close>

text \<open>
  The tables of tskit. The fixed-width columns of a table have one entry per row; where a
  table has several, they are read row by row here. A variable-length column is the
  concatenation of its rows' bytes and an offset column with one more entry than there
  are rows.
\<close>

record tsk_site_table_t =
  st_position :: "real list"
  st_ancestral_state :: string
  st_ancestral_state_offset :: "nat list"
  st_metadata :: string
  st_metadata_offset :: "nat list"

record mutation_row =
  r_site :: int
  r_node :: int
  r_parent :: int

record tsk_mutation_table_t =
  mt_rows :: "mutation_row list"
  mt_derived_state :: string
  mt_derived_state_offset :: "nat list"
  mt_metadata :: string
  mt_metadata_offset :: "nat list"

record tsk_node_table_t =
  nt_time :: "real list"

record edge_row =
  e_left :: real
  e_right :: real
  e_parent :: int
  e_child :: int

record tsk_edge_table_t =
  et_rows :: "edge_row list"

record tsk_table_collection_t =
  t_sequence_length :: real
  t_nodes :: tsk_node_table_t
  t_edges :: tsk_edge_table_t
  t_sites :: tsk_site_table_t
  t_mutations :: tsk_mutation_table_t

text \<open>Modelled from the spec: the clear operations of the site and mutation tables
  (\<^verbatim>\<open>tsk_site_table_clear\<close>, \<^verbatim>\<open>tsk_mutation_table_clear\<close>).\<close>

definition tsk_site_table_clear :: "tsk_site_table_t \<Rightarrow> tsk_site_table_t" where
  "tsk_site_table_clear t =
     \<lparr>st_position = [], st_ancestral_state = [], st_ancestral_state_offset = [0],
      st_metadata = [], st_metadata_offset = [0]\<rparr>"

definition tsk_mutation_table_clear :: "tsk_mutation_table_t \<Rightarrow> tsk_mutation_table_t" where
  "tsk_mutation_table_clear t =
     \<lparr>mt_rows = [],
      mt_derived_state = [], mt_derived_state_offset = [0],
      mt_metadata = [], mt_metadata_offset = [0]\<rparr>"

text \<open>Modelled from the spec: the append operations (\<^verbatim>\<open>tsk_site_table_add_row\<close>,
  \<^verbatim>\<open>tsk_mutation_table_add_row\<close>), which return the index of the new row or fail when
  the table cannot grow.\<close>

definition tsk_site_table_add_row ::
  "env \<Rightarrow> tsk_site_table_t \<Rightarrow> real \<Rightarrow> string \<Rightarrow> string \<Rightarrow> tsk_error + (int \<times> tsk_site_table_t)"
where
  "tsk_site_table_add_row env t position ancestral_state metadata =
     (if length (st_position t) < max_rows env
      then Inr (int (length (st_position t)),
             t\<lparr>st_position := st_position t @ [position],
               st_ancestral_state := st_ancestral_state t @ ancestral_state,
               st_ancestral_state_offset := st_ancestral_state_offset t
                  @ [length (st_ancestral_state t) + length ancestral_state],
               st_metadata := st_metadata t @ metadata,
               st_metadata_offset := st_metadata_offset t
                  @ [length (st_metadata t) + length metadata]\<rparr>)
      else Inl TSK_ERR_TABLE_OVERFLOW)"

definition tsk_mutation_table_add_row ::
  "env \<Rightarrow> tsk_mutation_table_t \<Rightarrow> int \<Rightarrow> int \<Rightarrow> int \<Rightarrow> string \<Rightarrow> string
     \<Rightarrow> tsk_error + (int \<times> tsk_mutation_table_t)"
where
  "tsk_mutation_table_add_row env t site node parent derived_state metadata =
     (if length (mt_rows t) < max_rows env
      then Inr (int (length (mt_rows t)),
             t\<lparr>mt_rows := mt_rows t @ [\<lparr>r_site = site, r_node = node, r_parent = parent\<rparr>],
               mt_derived_state := mt_derived_state t @ derived_state,
               mt_derived_state_offset := mt_derived_state_offset t
                  @ [length (mt_derived_state t) + length derived_state],
               mt_metadata := mt_metadata t @ metadata,
               mt_metadata_offset := mt_metadata_offset t
                  @ [length (mt_metadata t) + length metadata]\<rparr>)
      else Inl TSK_ERR_TABLE_OVERFLOW)"

text \<open>Modelled from the spec: the structural validity check
  (\<^verbatim>\<open>tsk_table_collection_check_integrity\<close> with \<^verbatim>\<open>TSK_CHECK_OFFSETS\<close>): consistent
  offsets and in-range node references.\<close>

definition offsets_ok :: "nat \<Rightarrow> nat list \<Rightarrow> nat \<Rightarrow> bool" where
  "offsets_ok num_rows offsets len \<longleftrightarrow>
     length offsets = num_rows + 1 \<and> offsets ! 0 = 0 \<and> sorted offsets \<and> offsets ! num_rows = len"

definition node_in_range :: "tsk_table_collection_t \<Rightarrow> int \<Rightarrow> bool" where
  "node_in_range tables u \<longleftrightarrow> 0 \<le> u \<and> u < int (length (nt_time (t_nodes tables)))"

definition tsk_table_collection_check_integrity :: "tsk_table_collection_t \<Rightarrow> tsk_error option" where
  "tsk_table_collection_check_integrity tables =
     (if \<not> (list_all (\<lambda>e. node_in_range tables (e_parent e) \<and> node_in_range tables (e_child e))
               (et_rows (t_edges tables))
            \<and> list_all (\<lambda>r. node_in_range tables (r_node r)) (mt_rows (t_mutations tables)))
      then Some TSK_ERR_NODE_OUT_OF_BOUNDS
      else if \<not> (offsets_ok (length (st_position (t_sites tables)))
                    (st_ancestral_state_offset (t_sites tables))
                    (length (st_ancestral_state (t_sites tables)))
                \<and> offsets_ok (length (st_position (t_sites tables)))
                    (st_metadata_offset (t_sites tables))
                    (length (st_metadata (t_sites tables)))
                \<and> offsets_ok (length (mt_rows (t_mutations tables)))
                    (mt_derived_state_offset (t_mutations tables))
                    (length (mt_derived_state (t_mutations tables)))
                \<and> offsets_ok (length (mt_rows (t_mutations tables)))
                    (mt_metadata_offset (t_mutations tables))
                    (length (mt_metadata (t_mutations tables))))
      then Some TSK_ERR_BAD_OFFSET
      else None)"

subsection \<open>The arena\<close>

text \<open>Modelled from the spec: \<^verbatim>\<open>tsk_blkalloc_init\<close> reserves the first block.\<close>

definition tsk_blkalloc_init :: "env \<Rightarrow> nat \<Rightarrow> tsk_error + tsk_blkalloc_t" where
  "tsk_blkalloc_init env chunk =
     (if malloc_ok env chunk then Inr \<lparr>chunk_size = chunk, num_chunks = 1, blk_top = 0\<rparr>
      else Inl TSK_ERR_NO_MEMORY)"

text \<open>Modelled from the spec: \<^verbatim>\<open>tsk_blkalloc_get\<close>. A request larger than a block
  fails (the C function returns \<^verbatim>\<open>NULL\<close>, here \<open>False\<close>); a request that does not fit
  the rest of the current block opens a new block.\<close>

definition tsk_blkalloc_get :: "tsk_blkalloc_t \<Rightarrow> nat \<Rightarrow> bool \<times> tsk_blkalloc_t" where
  "tsk_blkalloc_get a n =
     (if n > chunk_size a then (False, a)
      else if blk_top a + n > chunk_size a
        then (True, a\<lparr>num_chunks := num_chunks a + 1, blk_top := n\<rparr>)
        else (True, a\<lparr>blk_top := blk_top a + n\<rparr>))"

text \<open>\<^verbatim>\<open>mutgen_init_allocator\<close>. \<^verbatim>\<open>GSL_MAX\<close> is the maximum.\<close>

definition init_block_size :: "env \<Rightarrow> nat \<Rightarrow> tsk_table_collection_t \<Rightarrow> nat" where
  "init_block_size env bs tables =
     (let b0 = (if bs = 0 then 8192 else bs);
          b1 = max b0 128;
          b2 = max b1 (1 + length (st_ancestral_state (t_sites tables)));
          b3 = max b2 (1 + length (st_metadata (t_sites tables)));
          b4 = max b3 (1 + length (mt_derived_state (t_mutations tables)));
          b5 = max b4 (1 + length (mt_metadata (t_mutations tables)))
      in max b5 ((1 + length (mt_rows (t_mutations tables))) * sizeof_mutation env))"

definition mutgen_init_allocator ::
  "env \<Rightarrow> 'r mutgen_t \<Rightarrow> tsk_table_collection_t \<Rightarrow> error option \<times> 'r mutgen_t"
where
  "mutgen_init_allocator env self tables =
     (let bs = init_block_size env (block_size self) tables
      in case tsk_blkalloc_init env bs of
           Inl e \<Rightarrow> (Some (msp_set_tsk_error e),
                     self\<lparr>block_size := bs,
                          allocator := \<lparr>chunk_size = 0, num_chunks = 0, blk_top = 0\<rparr>\<rparr>)
         | Inr a \<Rightarrow> (None, self\<lparr>block_size := bs, allocator := a\<rparr>))"

subsection \<open>The site registry\<close>

definition cmp_site :: "tsk_site_t \<Rightarrow> tsk_site_t \<Rightarrow> int" where
  "cmp_site a b =
     (if s_position a > s_position b then 1 else 0) - (if s_position a < s_position b then 1 else 0)"

text \<open>Modelled from the spec: the registry (the AVL tree \<^verbatim>\<open>self->sites\<close>) is the list
  of its items in traversal order. \<^verbatim>\<open>avl_insert_node\<close> refuses an item that compares
  equal to one in the tree (\<^verbatim>\<open>NULL\<close>, here \<open>None\<close>); \<^verbatim>\<open>avl_search\<close> finds the item
  that compares equal.\<close>

fun avl_insert_node :: "tsk_site_t list \<Rightarrow> tsk_site_t \<Rightarrow> tsk_site_t list option" where
  "avl_insert_node [] item = Some [item]"
| "avl_insert_node (x # xs) item =
     (if cmp_site item x < 0 then Some (item # x # xs)
      else if cmp_site item x = 0 then None
      else map_option (Cons x) (avl_insert_node xs item))"

definition avl_search :: "tsk_site_t list \<Rightarrow> tsk_site_t \<Rightarrow> tsk_site_t option" where
  "avl_search tree item = find (\<lambda>x. cmp_site item x = 0) tree"

text \<open>The local variable \<^verbatim>\<open>search\<close> of \<^verbatim>\<open>mutgen_generate\<close>: only its position is set.\<close>

definition search_key :: "real \<Rightarrow> tsk_site_t" where
  "search_key position =
     \<lparr>s_position = position, s_ancestral_state = [], s_metadata = [], s_mutations = []\<rparr>"

subsection \<open>\<^verbatim>\<open>mutgen_add_mutation\<close>\<close>

text \<open>
  The three records are requested from the arena before the results are looked at. The
  states are the first \<^verbatim>\<open>ancestral_state_length = 1\<close> and \<^verbatim>\<open>derived_state_length = 1\<close>
  bytes of the strings passed in; \<^verbatim>\<open>memset\<close> leaves the mutation's \<^verbatim>\<open>id\<close> at 0 and the
  metadata empty. The \<^verbatim>\<open>assert\<close> on the insertion is the last step.
\<close>

definition mutgen_add_mutation ::
  "env \<Rightarrow> 'r mutgen_t \<Rightarrow> int \<Rightarrow> real \<Rightarrow> string \<Rightarrow> string \<Rightarrow> error option \<times> 'r mutgen_t"
where
  "mutgen_add_mutation env self node position ancestral_state derived_state =
     (let (ok1, a1) = tsk_blkalloc_get (allocator self) (sizeof_site env);
          (ok2, a2) = tsk_blkalloc_get a1 (sizeof_mutation env);
          (ok3, a3) = tsk_blkalloc_get a2 (sizeof_avl_node env)
      in if \<not> ok1 \<or> \<not> ok2 \<or> \<not> ok3 then (Some MSP_ERR_NO_MEMORY, self\<lparr>allocator := a3\<rparr>)
         else
           (let mutation = \<lparr>m_id = 0, m_node = node, m_parent = TSK_NULL,
                            m_derived_state = take 1 derived_state, m_metadata = []\<rparr>;
                site = \<lparr>s_position = position, s_ancestral_state = take 1 ancestral_state,
                        s_metadata = [], s_mutations = [mutation]\<rparr>
            in case avl_insert_node (sites self) site of
                 None \<Rightarrow> (Some FAULT_ASSERT, self\<lparr>allocator := a3\<rparr>)
               | Some tree \<Rightarrow> (None, self\<lparr>allocator := a3, sites := tree\<rparr>)))"

subsection \<open>\<^verbatim>\<open>mutget_initialise_sites\<close>\<close>

text \<open>Sequencing of steps that can fail.\<close>

definition ebind :: "error + 'a \<Rightarrow> ('a \<Rightarrow> error + 'b) \<Rightarrow> error + 'b" where
  "ebind x f = (case x of Inl e \<Rightarrow> Inl e | Inr v \<Rightarrow> f v)"

text \<open>The scan \<^verbatim>\<open>while (j < mutations->num_rows && mutations->site[j] == site_id) j++\<close>.\<close>

function run_end :: "int list \<Rightarrow> int \<Rightarrow> nat \<Rightarrow> nat" where
  "run_end site_col site_id j =
     (if j < length site_col \<and> site_col ! j = site_id then run_end site_col site_id (j + 1) else j)"
  by pat_completeness auto
termination
  by (relation "measure (\<lambda>(site_col, site_id, j). length site_col - j)") auto

declare run_end.simps [simp del]

text \<open>
  One variable-length cell is copied into the arena: the length is the difference of two
  offsets, a buffer of that length is requested, and the bytes are copied. The difference
  is unsigned in C and wraps when the offsets decrease, which the integrity check of
  \<^verbatim>\<open>mutgen_generate\<close> excludes; the copy would then leave the column.
\<close>

definition copy_cell ::
  "tsk_blkalloc_t \<Rightarrow> string \<Rightarrow> nat list \<Rightarrow> nat \<Rightarrow> error + (string \<times> tsk_blkalloc_t)"
where
  "copy_cell a col offsets i =
     ebind (array_get offsets (i + 1)) (\<lambda>hi.
     ebind (array_get offsets i) (\<lambda>lo.
       if hi < lo then Inl FAULT_OUT_OF_BOUNDS
       else
         (let len = hi - lo; (ok, a') = tsk_blkalloc_get a len
          in if \<not> ok then Inl MSP_ERR_NO_MEMORY
             else if lo + len > length col then Inl FAULT_OUT_OF_BOUNDS
             else Inr (take len (drop lo col), a'))))"

text \<open>The loop over the \<open>n\<close> mutations of one site, from row \<open>mutation_id\<close>. An imported
  mutation carries \<^verbatim>\<open>id = 1\<close>.\<close>

fun import_mutations ::
  "tsk_mutation_table_t \<Rightarrow> nat \<Rightarrow> nat \<Rightarrow> tsk_blkalloc_t
     \<Rightarrow> error + (tsk_mutation_t list \<times> tsk_blkalloc_t)"
where
  "import_mutations mutations mutation_id 0 a = Inr ([], a)"
| "import_mutations mutations mutation_id (Suc n) a =
     ebind (array_get (mt_rows mutations) mutation_id) (\<lambda>row.
     ebind (copy_cell a (mt_derived_state mutations) (mt_derived_state_offset mutations) mutation_id)
       (\<lambda>(derived_state, a1).
     ebind (copy_cell a1 (mt_metadata mutations) (mt_metadata_offset mutations) mutation_id)
       (\<lambda>(metadata, a2).
     ebind (import_mutations mutations (mutation_id + 1) n a2) (\<lambda>(rest, a3).
       Inr (\<lparr>m_id = 1, m_node = r_node row, m_parent = r_parent row,
              m_derived_state = derived_state, m_metadata = metadata\<rparr> # rest, a3)))))"

text \<open>The body of the loop over the sites, up to the insertion: the site built from row
  \<open>site_id\<close>, the mutation row reached, and the arena.\<close>

definition import_site ::
  "env \<Rightarrow> tsk_table_collection_t \<Rightarrow> nat \<Rightarrow> nat \<Rightarrow> tsk_blkalloc_t
     \<Rightarrow> error + (tsk_site_t \<times> nat \<times> tsk_blkalloc_t)"
where
  "import_site env tables site_id mutation_id a =
     (let site_table = t_sites tables; mutations = t_mutations tables;
          j = run_end (map r_site (mt_rows mutations)) (int site_id) mutation_id;
          num_mutations = j - mutation_id;
          (ok1, a1) = tsk_blkalloc_get a (sizeof_site env);
          (ok2, a2) = tsk_blkalloc_get a1 (sizeof_avl_node env);
          (ok3, a3) = tsk_blkalloc_get a2 (num_mutations * sizeof_mutation env)
      in if \<not> ok1 \<or> \<not> ok2 \<or> \<not> ok3 then Inl MSP_ERR_NO_MEMORY
         else
           ebind (array_get (st_position site_table) site_id) (\<lambda>position.
           ebind (copy_cell a3 (st_ancestral_state site_table)
                    (st_ancestral_state_offset site_table) site_id)
             (\<lambda>(ancestral_state, a4).
           ebind (copy_cell a4 (st_metadata site_table) (st_metadata_offset site_table) site_id)
             (\<lambda>(metadata, a5).
           ebind (import_mutations mutations mutation_id num_mutations a5) (\<lambda>(site_mutations, a6).
             Inr (\<lparr>s_position = position, s_ancestral_state = ancestral_state,
                    s_metadata = metadata, s_mutations = site_mutations\<rparr>,
                  mutation_id + num_mutations, a6))))))"

text \<open>The loop over the sites from \<open>site_id\<close>. After a failure nothing reads the arena
  before it is initialised again, so the error paths keep the arena of the last
  completed step.\<close>

function initialise_sites_loop ::
  "env \<Rightarrow> tsk_table_collection_t \<Rightarrow> nat \<Rightarrow> nat \<Rightarrow> 'r mutgen_t \<Rightarrow> error option \<times> 'r mutgen_t"
where
  "initialise_sites_loop env tables site_id mutation_id self =
     (if site_id < length (st_position (t_sites tables)) then
        (case import_site env tables site_id mutation_id (allocator self) of
           Inl e \<Rightarrow> (Some e, self)
         | Inr (site, mutation_id', a) \<Rightarrow>
             (case avl_insert_node (sites self) site of
                None \<Rightarrow> (Some MSP_ERR_DUPLICATE_SITE_POSITION, self\<lparr>allocator := a\<rparr>)
              | Some tree \<Rightarrow>
                  initialise_sites_loop env tables (site_id + 1) mutation_id'
                    (self\<lparr>allocator := a, sites := tree\<rparr>)))
      else (None, self))"
  by pat_completeness auto
termination
  by (relation "measure (\<lambda>(env, tables, site_id, mutation_id, self).
                  length (st_position (t_sites tables)) - site_id)") auto

declare initialise_sites_loop.simps [simp del]

definition mutget_initialise_sites ::
  "env \<Rightarrow> 'r mutgen_t \<Rightarrow> tsk_table_collection_t \<Rightarrow> error option \<times> 'r mutgen_t"
where
  "mutget_initialise_sites env self tables = initialise_sites_loop env tables 0 0 self"

subsection \<open>\<^verbatim>\<open>mutgen_populate_tables\<close>\<close>

text \<open>The loop over the mutations of one site; \<open>new_mutations\<close> is the running count of
  the mutations written so far whose \<^verbatim>\<open>id\<close> is 0.\<close>

fun populate_mutations ::
  "env \<Rightarrow> int \<Rightarrow> tsk_mutation_t list \<Rightarrow> int \<Rightarrow> tsk_mutation_table_t
     \<Rightarrow> error option \<times> int \<times> tsk_mutation_table_t"
where
  "populate_mutations env site_id [] new_mutations mutations = (None, new_mutations, mutations)"
| "populate_mutations env site_id (mutation # rest) new_mutations mutations =
     (let parent = (if m_parent mutation \<noteq> TSK_NULL then m_parent mutation + new_mutations
                    else m_parent mutation)
      in case tsk_mutation_table_add_row env mutations site_id (m_node mutation) parent
                (m_derived_state mutation) (m_metadata mutation) of
           Inl e \<Rightarrow> (Some (msp_set_tsk_error e), new_mutations, mutations)
         | Inr (row, mutations') \<Rightarrow>
             populate_mutations env site_id rest
               (if m_id mutation = 0 then new_mutations + 1 else new_mutations) mutations')"

text \<open>The loop over the registry in traversal order.\<close>

fun populate_sites ::
  "env \<Rightarrow> tsk_site_t list \<Rightarrow> int \<Rightarrow> tsk_site_table_t \<Rightarrow> tsk_mutation_table_t
     \<Rightarrow> error option \<times> tsk_site_table_t \<times> tsk_mutation_table_t"
where
  "populate_sites env [] new_mutations site_table mutations = (None, site_table, mutations)"
| "populate_sites env (site # rest) new_mutations site_table mutations =
     (case tsk_site_table_add_row env site_table (s_position site) (s_ancestral_state site)
              (s_metadata site) of
        Inl e \<Rightarrow> (Some (msp_set_tsk_error e), site_table, mutations)
      | Inr (site_id, site_table') \<Rightarrow>
          (case populate_mutations env site_id (s_mutations site) new_mutations mutations of
             (Some e, new_mutations', mutations') \<Rightarrow> (Some e, site_table', mutations')
           | (None, new_mutations', mutations') \<Rightarrow>
               populate_sites env rest new_mutations' site_table' mutations'))"

definition mutgen_populate_tables ::
  "env \<Rightarrow> 'r mutgen_t \<Rightarrow> tsk_site_table_t \<Rightarrow> tsk_mutation_table_t
     \<Rightarrow> error option \<times> tsk_site_table_t \<times> tsk_mutation_table_t"
where
  "mutgen_populate_tables env self site_table mutations =
     populate_sites env (sites self) 0 site_table mutations"

subsection \<open>\<^verbatim>\<open>mutgen_generate\<close>\<close>

text \<open>
  The random number generator is a capability of the caller: its state \<open>'r\<close> and the
  three draws of GSL that \<^verbatim>\<open>mutgen_generate\<close> makes, each returning the drawn number
  and the generator's next state.
\<close>

record 'r gsl_rng =
  gsl_ran_poisson :: "'r \<Rightarrow> real \<Rightarrow> nat \<times> 'r"
  gsl_ran_flat :: "'r \<Rightarrow> real \<Rightarrow> real \<Rightarrow> real \<times> 'r"
  gsl_rng_uniform_int :: "'r \<Rightarrow> nat \<Rightarrow> nat \<times> 'r"

definition binary_mutation_types :: "(string \<times> string) list" where
  "binary_mutation_types = [(''0'', ''1'')]"

definition acgt_mutation_types :: "(string \<times> string) list" where
  "acgt_mutation_types =
     [(''A'', ''C''), (''A'', ''G''), (''A'', ''T''),
      (''C'', ''A''), (''C'', ''G''), (''C'', ''T''),
      (''G'', ''A''), (''G'', ''C''), (''G'', ''T''),
      (''T'', ''A''), (''T'', ''C''), (''T'', ''G'')]"

text \<open>Modelled from the spec: \<^verbatim>\<open>tsk_search_sorted\<close> returns the insertion point of a
  value in a sorted array, the number of entries below it.\<close>

definition tsk_search_sorted :: "real list \<Rightarrow> real \<Rightarrow> nat" where
  "tsk_search_sorted array v = length (takeWhile (\<lambda>x. x < v) array)"

text \<open>The rejection loop \<^verbatim>\<open>do { ... } while (avl_node != NULL)\<close>. It has no bound, so
  the result is \<open>None\<close> when it does not end.\<close>

partial_function (option) sample_position ::
  "'r gsl_rng \<Rightarrow> tsk_site_t list \<Rightarrow> real \<Rightarrow> real \<Rightarrow> 'r \<Rightarrow> (real \<times> 'r) option"
where
  "sample_position gsl tree left right r =
     (case gsl_ran_flat gsl r left right of
        (position, r') \<Rightarrow>
          (if avl_search tree (search_key position) \<noteq> None
           then sample_position gsl tree left right r'
           else Some (position, r')))"

declare sample_position.simps [code]

text \<open>The loop \<^verbatim>\<open>for (l = 0; l < branch_mutations; l++)\<close>, with \<open>n\<close> iterations left.\<close>

fun add_mutations ::
  "'r gsl_rng \<Rightarrow> env \<Rightarrow> (string \<times> string) list \<Rightarrow> int \<Rightarrow> real \<Rightarrow> real \<Rightarrow> nat \<Rightarrow> 'r mutgen_t
     \<Rightarrow> (error option \<times> 'r mutgen_t) option"
where
  "add_mutations gsl env mutation_types child left right 0 self = Some (None, self)"
| "add_mutations gsl env mutation_types child left right (Suc n) self =
     (case sample_position gsl (sites self) left right (rng self) of
        None \<Rightarrow> None
      | Some (position, r1) \<Rightarrow>
          (if \<not> (left \<le> position \<and> position < right)
           then Some (Some FAULT_ASSERT, self\<lparr>rng := r1\<rparr>)
           else
             (case gsl_rng_uniform_int gsl r1 (length mutation_types) of
                (type, r2) \<Rightarrow>
                  (case array_get mutation_types type of
                     Inl f \<Rightarrow> Some (Some f, self\<lparr>rng := r2\<rparr>)
                   | Inr (ancestral_state, derived_state) \<Rightarrow>
                       (case mutgen_add_mutation env (self\<lparr>rng := r2\<rparr>) child position
                               ancestral_state derived_state of
                          (Some e, self') \<Rightarrow> Some (Some e, self')
                        | (None, self') \<Rightarrow>
                            add_mutations gsl env mutation_types child left right n self')))))"

text \<open>
  The loop \<^verbatim>\<open>while (right != edge_right)\<close>. The rate map \<open>m\<close> is \<^verbatim>\<open>self->map\<close>, which
  the loop does not change. \<^verbatim>\<open>left\<close> keeps the edge's left end in every round.
\<close>

function edge_intervals ::
  "'r gsl_rng \<Rightarrow> env \<Rightarrow> (string \<times> string) list \<Rightarrow> mutation_map_t \<Rightarrow> int \<Rightarrow> real \<Rightarrow> real \<Rightarrow> real
     \<Rightarrow> real \<Rightarrow> nat \<Rightarrow> 'r mutgen_t \<Rightarrow> (error option \<times> 'r mutgen_t) option"
where
  "edge_intervals gsl env mutation_types m child branch_length left edge_right right map_index self =
     (if right = edge_right then Some (None, self)
      else
        (case cell_get (map_position m) (map_index + 1) of
           Inl f \<Rightarrow> Some (Some f, self)
         | Inr p \<Rightarrow>
             (case cell_get (map_rate m) map_index of
                Inl f \<Rightarrow> Some (Some f, self)
              | Inr rate \<Rightarrow>
                  (case gsl_ran_poisson gsl (rng self)
                          (branch_length * (min edge_right p - left) * rate) of
                     (branch_mutations, r1) \<Rightarrow>
                       (case add_mutations gsl env mutation_types child left (min edge_right p)
                               branch_mutations (self\<lparr>rng := r1\<rparr>) of
                          None \<Rightarrow> None
                        | Some (Some e, self') \<Rightarrow> Some (Some e, self')
                        | Some (None, self') \<Rightarrow>
                            edge_intervals gsl env mutation_types m child branch_length left
                              edge_right (min edge_right p) (map_index + 1) self')))))"
  by pat_completeness auto
termination
  by (relation "measure (\<lambda>(gsl, env, mutation_types, m, child, branch_length, left, edge_right,
                  right, map_index, self). length (map_rate m) - map_index)")
     (auto simp: cell_get_def split: if_splits)

declare edge_intervals.simps [simp del]

text \<open>
  The body of the loop over the edges for one row. The index found by the search is
  stepped back when the breakpoint there lies right of \<^verbatim>\<open>left\<close>; stepping back from index
  0 wraps around in \<^verbatim>\<open>size_t\<close>, and the first round of the loop then reads
  \<^verbatim>\<open>self->map.rate\<close> outside the array, unless the loop makes no round at all.
\<close>

definition generate_edge ::
  "'r gsl_rng \<Rightarrow> env \<Rightarrow> tsk_table_collection_t \<Rightarrow> (string \<times> string) list \<Rightarrow> edge_row \<Rightarrow> 'r mutgen_t
     \<Rightarrow> (error option \<times> 'r mutgen_t) option"
where
  "generate_edge gsl env tables mutation_types edge self =
     (let m = mutation_map self; nodes = t_nodes tables;
          left = e_left edge; edge_right = e_right edge;
          parent = e_parent edge; child = e_child edge;
          prep =
            (if \<not> (child \<ge> 0 \<and> child < int (length (nt_time nodes))) then Inl FAULT_ASSERT
             else
               ebind (array_get_int (nt_time nodes) child) (\<lambda>time_child.
               ebind (array_get_int (nt_time nodes) parent) (\<lambda>time_parent.
               ebind (if list_all (\<lambda>c. c \<noteq> None) (take (map_size m) (map_position m))
                         \<and> map_size m \<le> length (map_position m)
                      then Inr (tsk_search_sorted
                                 (map the (take (map_size m) (map_position m))) left)
                      else Inl (if map_size m \<le> length (map_position m)
                                then FAULT_UNINITIALISED else FAULT_OUT_OF_BOUNDS))
                 (\<lambda>map_index.
               ebind (cell_get (map_position m) map_index) (\<lambda>p.
                 Inr (min (end_time self) time_parent - max (start_time self) time_child,
                      map_index, p > left))))))
      in case prep of
           Inl f \<Rightarrow> Some (Some f, self)
         | Inr (branch_length, map_index, step_back) \<Rightarrow>
             (if step_back \<and> map_index = 0
              then (if 0 = edge_right then Some (None, self)
                    else Some (Some FAULT_OUT_OF_BOUNDS, self))
              else edge_intervals gsl env mutation_types m child branch_length left edge_right 0
                     (if step_back then map_index - 1 else map_index) self))"

text \<open>The loop over the edges, row by row.\<close>

fun generate_edges ::
  "'r gsl_rng \<Rightarrow> env \<Rightarrow> tsk_table_collection_t \<Rightarrow> (string \<times> string) list \<Rightarrow> edge_row list
     \<Rightarrow> 'r mutgen_t \<Rightarrow> (error option \<times> 'r mutgen_t) option"
where
  "generate_edges gsl env tables mutation_types [] self = Some (None, self)"
| "generate_edges gsl env tables mutation_types (edge # edges) self =
     (case generate_edge gsl env tables mutation_types edge self of
        None \<Rightarrow> None
      | Some (Some e, self') \<Rightarrow> Some (Some e, self')
      | Some (None, self') \<Rightarrow> generate_edges gsl env tables mutation_types edges self')"

text \<open>
  \<^verbatim>\<open>mutgen_generate\<close> up to the import of the existing sites: the registry is emptied,
  the arena initialised, the tables checked, the sentinel written and the last breakpoint
  compared with the sequence length. \<open>keep_sites\<close> is the test
  \<^verbatim>\<open>flags & MSP_KEEP_SITES\<close>. Writing the sentinel needs the cell
  \<^verbatim>\<open>map.position[map.size]\<close>, and reading the last breakpoint the cell
  \<^verbatim>\<open>map.position[map.size - 1]\<close>.
\<close>

definition generate_preamble ::
  "env \<Rightarrow> 'r mutgen_t \<Rightarrow> tsk_table_collection_t \<Rightarrow> bool \<Rightarrow> error option \<times> 'r mutgen_t"
where
  "generate_preamble env self tables keep_sites =
     (case mutgen_init_allocator env (self\<lparr>sites := []\<rparr>) tables of
        (Some e, s1) \<Rightarrow> (Some e, s1)
      | (None, s1) \<Rightarrow>
          (case tsk_table_collection_check_integrity tables of
             Some e \<Rightarrow> (Some (msp_set_tsk_error e), s1)
           | None \<Rightarrow>
               (let m = mutation_map s1 in
                if \<not> map_size m < length (map_position m) \<or> map_size m = 0
                then (Some FAULT_OUT_OF_BOUNDS, s1)
                else
                  (let s2 = s1\<lparr>mutation_map :=
                              m\<lparr>map_position :=
                                   (map_position m)[map_size m := Some (t_sequence_length tables)]\<rparr>\<rparr>
                   in case cell_get (map_position (mutation_map s2)) (map_size m - 1) of
                        Inl f \<Rightarrow> (Some f, s2)
                      | Inr last_position \<Rightarrow>
                          (if last_position \<ge> t_sequence_length tables
                           then (Some MSP_ERR_INCOMPATIBLE_MUTATION_MAP, s2)
                           else if keep_sites then mutget_initialise_sites env s2 tables
                           else (None, s2))))))"

text \<open>
  \<^verbatim>\<open>mutgen_generate\<close>: after the steps above the two tables are cleared, the edges
  sampled and the registry written to the tables. The result is the status, the
  generator and the table collection as the call leaves them, or \<open>None\<close> when the call
  does not return.
\<close>

definition mutgen_generate ::
  "'r gsl_rng \<Rightarrow> env \<Rightarrow> 'r mutgen_t \<Rightarrow> tsk_table_collection_t \<Rightarrow> bool
     \<Rightarrow> (error option \<times> 'r mutgen_t \<times> tsk_table_collection_t) option"
where
  "mutgen_generate gsl env self tables keep_sites =
     (case generate_preamble env self tables keep_sites of
        (Some e, s3) \<Rightarrow> Some (Some e, s3, tables)
      | (None, s3) \<Rightarrow>
          (let tables1 = tables\<lparr>t_sites := tsk_site_table_clear (t_sites tables),
                               t_mutations := tsk_mutation_table_clear (t_mutations tables)\<rparr>;
               mutation_types = (if alphabet s3 = 0 then binary_mutation_types
                                 else acgt_mutation_types)
           in case generate_edges gsl env tables1 mutation_types
                     (et_rows (t_edges tables1)) s3 of
                None \<Rightarrow> None
              | Some (Some e, s4) \<Rightarrow> Some (Some e, s4, tables1)
              | Some (None, s4) \<Rightarrow>
                  (case mutgen_populate_tables env s4 (t_sites tables1) (t_mutations tables1) of
                     (ret, site_table, mutation_table) \<Rightarrow>
                       Some (ret, s4, tables1\<lparr>t_sites := site_table,
                                              t_mutations := mutation_table\<rparr>))))"

section \<open>Definitions for the statements\<close>

subsection \<open>The rate map\<close>





subsection \<open>Example inputs\<close>

definition env0 :: env where
  "env0 = \<lparr>sizeof_site = 64, sizeof_mutation = 64, sizeof_avl_node = 56,
            malloc_ok = (\<lambda>n. True), max_rows = 1000\<rparr>"


definition mutgen1 :: "nat mutgen_t" where
  "mutgen1 = \<lparr>alphabet = 0, rng = 0, start_time = 0, end_time = 10, block_size = 0,
     sites = [], allocator = \<lparr>chunk_size = 128, num_chunks = 1, blk_top = 0\<rparr>,
     mutation_map = \<lparr>map_size = 2, map_position = [Some 0, Some 10, None],
                     map_rate = [Some 1, Some 1]\<rparr>\<rparr>"

definition empty_sites :: tsk_site_table_t where
  "empty_sites = \<lparr>st_position = [], st_ancestral_state = [], st_ancestral_state_offset = [0],
      st_metadata = [], st_metadata_offset = [0]\<rparr>"

definition empty_mutations :: tsk_mutation_table_t where
  "empty_mutations = \<lparr>mt_rows = [],
      mt_derived_state = [], mt_derived_state_offset = [0],
      mt_metadata = [], mt_metadata_offset = [0]\<rparr>"

text \<open>Two nodes at times 0 and 1, one edge over [0, 5) from node 1 down to node 0.\<close>

definition tables_short :: tsk_table_collection_t where
  "tables_short = \<lparr>t_sequence_length = 5,
     t_nodes = \<lparr>nt_time = [0, 1]\<rparr>,
     t_edges = \<lparr>et_rows = [\<lparr>e_left = 0, e_right = 5, e_parent = 1, e_child = 0\<rparr>]\<rparr>,
     t_sites = empty_sites, t_mutations = empty_mutations\<rparr>"

text \<open>The same, but the edge's child is node 7, which does not exist.\<close>

definition tables_bad_node :: tsk_table_collection_t where
  "tables_bad_node = tables_short
     \<lparr>t_edges := \<lparr>et_rows = [\<lparr>e_left = 0, e_right = 5, e_parent = 1, e_child = 7\<rparr>]\<rparr>\<rparr>"

text \<open>Generators whose state counts the draws made.\<close>

definition gsl0 :: "nat gsl_rng" where
  "gsl0 = \<lparr>gsl_ran_poisson = (\<lambda>r mu. (0, r + 1)),
           gsl_ran_flat = (\<lambda>r a b. (a, r + 1)),
           gsl_rng_uniform_int = (\<lambda>r n. (0, r + 1))\<rparr>"




subsection \<open>The registry\<close>

text \<open>The site that \<^verbatim>\<open>mutgen_add_mutation\<close> builds, and the sites the import builds:
  their mutations carry \<^verbatim>\<open>id = 1\<close>. A property of the registry is closed under the
  insertion of such sites when every successful insertion keeps it.\<close>

definition generated_site :: "int \<Rightarrow> real \<Rightarrow> string \<Rightarrow> string \<Rightarrow> tsk_site_t" where
  "generated_site node position ancestral_state derived_state =
     \<lparr>s_position = position, s_ancestral_state = take 1 ancestral_state, s_metadata = [],
      s_mutations = [\<lparr>m_id = 0, m_node = node, m_parent = TSK_NULL,
                      m_derived_state = take 1 derived_state, m_metadata = []\<rparr>]\<rparr>"

definition closed_under_generated :: "(tsk_site_t list \<Rightarrow> bool) \<Rightarrow> bool" where
  "closed_under_generated P \<longleftrightarrow>
     (\<forall>tree node position anc der tree'.
        P tree \<longrightarrow> avl_insert_node tree (generated_site node position anc der) = Some tree'
          \<longrightarrow> P tree')"

definition imported_site :: "tsk_site_t \<Rightarrow> bool" where
  "imported_site site \<longleftrightarrow> list_all (\<lambda>m. m_id m = 1) (s_mutations site)"

definition closed_under_imported :: "(tsk_site_t list \<Rightarrow> bool) \<Rightarrow> bool" where
  "closed_under_imported P \<longleftrightarrow>
     (\<forall>tree site tree'.
        P tree \<longrightarrow> imported_site site \<longrightarrow> avl_insert_node tree site = Some tree' \<longrightarrow> P tree')"

subsection \<open>The import, without the arena\<close>

text \<open>The bytes of row \<open>i\<close> of a variable-length column, the mutation built from row
  \<open>k\<close> of the mutation table, the length of the run of rows from \<open>start\<close> whose site
  column is \<open>site_id\<close>, and the site built from row \<open>site_id\<close> of the site table with
  that run attached.\<close>

definition cell_bytes :: "string \<Rightarrow> nat list \<Rightarrow> nat \<Rightarrow> string" where
  "cell_bytes col offsets i = take (offsets ! (i + 1) - offsets ! i) (drop (offsets ! i) col)"

definition imported_mutation :: "tsk_mutation_table_t \<Rightarrow> nat \<Rightarrow> tsk_mutation_t" where
  "imported_mutation mutations k =
     \<lparr>m_id = 1, m_node = r_node (mt_rows mutations ! k), m_parent = r_parent (mt_rows mutations ! k),
      m_derived_state = cell_bytes (mt_derived_state mutations) (mt_derived_state_offset mutations) k,
      m_metadata = cell_bytes (mt_metadata mutations) (mt_metadata_offset mutations) k\<rparr>"

definition site_run :: "tsk_table_collection_t \<Rightarrow> nat \<Rightarrow> nat \<Rightarrow> nat" where
  "site_run tables site_id start =
     length (takeWhile (\<lambda>r. r_site r = int site_id) (drop start (mt_rows (t_mutations tables))))"

definition rehydrated_site :: "tsk_table_collection_t \<Rightarrow> nat \<Rightarrow> nat \<Rightarrow> tsk_site_t" where
  "rehydrated_site tables site_id start =
     \<lparr>s_position = st_position (t_sites tables) ! site_id,
      s_ancestral_state = cell_bytes (st_ancestral_state (t_sites tables))
                            (st_ancestral_state_offset (t_sites tables)) site_id,
      s_metadata = cell_bytes (st_metadata (t_sites tables)) (st_metadata_offset (t_sites tables)) site_id,
      s_mutations = map (imported_mutation (t_mutations tables))
                      [start..<start + site_run tables site_id start]\<rparr>"

text \<open>The block of the arena holds every request the import makes for these tables.\<close>

definition arena_fits :: "env \<Rightarrow> tsk_table_collection_t \<Rightarrow> tsk_blkalloc_t \<Rightarrow> bool" where
  "arena_fits env tables a \<longleftrightarrow>
     sizeof_site env \<le> chunk_size a \<and> sizeof_avl_node env \<le> chunk_size a \<and>
     sizeof_mutation env \<le> chunk_size a \<and>
     length (st_ancestral_state (t_sites tables)) < chunk_size a \<and>
     length (st_metadata (t_sites tables)) < chunk_size a \<and>
     length (mt_derived_state (t_mutations tables)) < chunk_size a \<and>
     length (mt_metadata (t_mutations tables)) < chunk_size a \<and>
     (1 + length (mt_rows (t_mutations tables))) * sizeof_mutation env \<le> chunk_size a"

text \<open>The loop over the sites as it acts on the registry alone.\<close>

function preload_from ::
  "tsk_table_collection_t \<Rightarrow> nat \<Rightarrow> nat \<Rightarrow> tsk_site_t list \<Rightarrow> error option \<times> tsk_site_t list"
where
  "preload_from tables site_id start tree =
     (if site_id < length (st_position (t_sites tables)) then
        (case avl_insert_node tree (rehydrated_site tables site_id start) of
           None \<Rightarrow> (Some MSP_ERR_DUPLICATE_SITE_POSITION, tree)
         | Some tree' \<Rightarrow>
             preload_from tables (site_id + 1) (start + site_run tables site_id start) tree')
      else (None, tree))"
  by pat_completeness auto
termination
  by (relation "measure (\<lambda>(tables, site_id, start, tree).
                  length (st_position (t_sites tables)) - site_id)") auto

declare preload_from.simps [simp del]

subsection \<open>Generators that differ in the arena only\<close>

text \<open>The block of the arena holds each of the three records of a new mutation; two
  generators with such arenas that agree on everything but the arena and the block
  size.\<close>

definition min_fits :: "env \<Rightarrow> 'r mutgen_t \<Rightarrow> bool" where
  "min_fits env self \<longleftrightarrow>
     sizeof_site env \<le> chunk_size (allocator self) \<and>
     sizeof_mutation env \<le> chunk_size (allocator self) \<and>
     sizeof_avl_node env \<le> chunk_size (allocator self)"

definition arena_equiv :: "env \<Rightarrow> 'r mutgen_t \<Rightarrow> 'r mutgen_t \<Rightarrow> bool" where
  "arena_equiv env s t \<longleftrightarrow>
     s\<lparr>allocator := allocator t, block_size := block_size t\<rparr> = t \<and> min_fits env s \<and> min_fits env t"

text \<open>The state of the generator after the steps before the import, when all succeed,
  and the condition on the rate map under which they do.\<close>

definition prepared :: "env \<Rightarrow> 'r mutgen_t \<Rightarrow> tsk_table_collection_t \<Rightarrow> 'r mutgen_t" where
  "prepared env self tables =
     self\<lparr>sites := [],
          block_size := init_block_size env (block_size self) tables,
          allocator := \<lparr>chunk_size = init_block_size env (block_size self) tables,
                         num_chunks = 1, blk_top = 0\<rparr>,
          mutation_map := (mutation_map self)
             \<lparr>map_position := (map_position (mutation_map self))
                 [map_size (mutation_map self) := Some (t_sequence_length tables)]\<rparr>\<rparr>"

definition map_ready :: "'r mutgen_t \<Rightarrow> tsk_table_collection_t \<Rightarrow> bool" where
  "map_ready self tables \<longleftrightarrow>
     0 < map_size (mutation_map self) \<and>
     map_size (mutation_map self) < length (map_position (mutation_map self)) \<and>
     (case map_position (mutation_map self) ! (map_size (mutation_map self) - 1) of
        None \<Rightarrow> False | Some p \<Rightarrow> p < t_sequence_length tables)"

text \<open>The row of the mutation table at which the run of site \<open>i\<close> starts.\<close>

fun run_start :: "tsk_table_collection_t \<Rightarrow> nat \<Rightarrow> nat" where
  "run_start tables 0 = 0"
| "run_start tables (Suc i) = run_start tables i + site_run tables i (run_start tables i)"

section \<open>Properties\<close>

subsection \<open>\<^verbatim>\<open>mutgen_set_map\<close>: validation\<close>














subsection \<open>\<^verbatim>\<open>mutgen_set_map\<close>: the state after the call\<close>






subsection \<open>\<^verbatim>\<open>mutgen_generate\<close>: the check of the rate map against the sequence length\<close>

lemma init_allocator_frame:
  "mutgen_init_allocator env self tables = (ret, s1) \<Longrightarrow>
   sites s1 = sites self \<and> rng s1 = rng self \<and> mutation_map s1 = mutation_map self \<and>
   alphabet s1 = alphabet self \<and> start_time s1 = start_time self \<and> end_time s1 = end_time self"
  by (auto simp: mutgen_init_allocator_def Let_def split: sum.splits)

text \<open>
  Claim C5, as the code has it. When the arena is initialised and the tables pass the
  integrity check, a call whose last breakpoint is not below the sequence length returns
  \<open>MSP_ERR_INCOMPATIBLE_MUTATION_MAP\<close>, whatever the flag; the tables are untouched, the
  registry is empty and no random number has been drawn. (The two steps named first come
  before the comparison and return their own errors.)
\<close>

theorem generate_incompatible_map:
  assumes init: "fst (mutgen_init_allocator env (self\<lparr>sites := []\<rparr>) tables) = None"
      and integ: "tsk_table_collection_check_integrity tables = None"
      and sz: "0 < map_size (mutation_map self)"
              "map_size (mutation_map self) < length (map_position (mutation_map self))"
      and last: "map_position (mutation_map self) ! (map_size (mutation_map self) - 1) = Some p"
      and ge: "p \<ge> t_sequence_length tables"
  shows "\<exists>s'. mutgen_generate gsl env self tables keep_sites
                 = Some (Some MSP_ERR_INCOMPATIBLE_MUTATION_MAP, s', tables)
              \<and> sites s' = [] \<and> rng s' = rng self"
proof -
  obtain s1 where s1: "mutgen_init_allocator env (self\<lparr>sites := []\<rparr>) tables = (None, s1)"
    using init by (cases "mutgen_init_allocator env (self\<lparr>sites := []\<rparr>) tables") auto
  from init_allocator_frame[OF s1]
  have fr: "sites s1 = []" "rng s1 = rng self" "mutation_map s1 = mutation_map self" by auto
  let ?m = "mutation_map self"
  let ?s2 = "s1\<lparr>mutation_map := ?m\<lparr>map_position := (map_position ?m)[map_size ?m := Some (t_sequence_length tables)]\<rparr>\<rparr>"
  have cell: "cell_get ((map_position ?m)[map_size ?m := Some (t_sequence_length tables)]) (map_size ?m - 1) = Inr p"
    using sz last by (simp add: cell_get_def)
  have "mutgen_generate gsl env self tables keep_sites
          = Some (Some MSP_ERR_INCOMPATIBLE_MUTATION_MAP, ?s2, tables)"
    using s1 integ sz cell ge fr by (simp add: mutgen_generate_def generate_preamble_def Let_def)
  moreover have "sites ?s2 = []" "rng ?s2 = rng self" using fr by simp_all
  ultimately show ?thesis by blast
qed

theorem generate_incompatible_map_witness:
  "fst (mutgen_init_allocator env0 (mutgen1\<lparr>sites := []\<rparr>) tables_short) = None \<and>
   tsk_table_collection_check_integrity tables_short = None \<and>
   (\<exists>s'. mutgen_generate gsl0 env0 mutgen1 tables_short True
                 = Some (Some MSP_ERR_INCOMPATIBLE_MUTATION_MAP, s', tables_short)
              \<and> sites s' = [] \<and> rng s' = rng mutgen1)"
proof -
  have a: "fst (mutgen_init_allocator env0 (mutgen1\<lparr>sites := []\<rparr>) tables_short) = None"
    by code_simp
  have b: "tsk_table_collection_check_integrity tables_short = None"
    by code_simp
  have c: "0 < map_size (mutation_map mutgen1)"
      "map_size (mutation_map mutgen1) < length (map_position (mutation_map mutgen1))"
      "map_position (mutation_map mutgen1) ! (map_size (mutation_map mutgen1) - 1) = Some 10"
      "(10::real) \<ge> t_sequence_length tables_short"
    by (simp_all add: mutgen1_def tables_short_def)
  from generate_incompatible_map[OF a b c, of gsl0 True] a b show ?thesis by blast
qed

text \<open>
  Claim C5, as stated, fails: with a last breakpoint of 10 on a sequence of length 5 and
  an edge whose child is not a node, the call returns the error of the integrity check.
\<close>

theorem generate_integrity_error_first:
  "map_position (mutation_map mutgen1) ! (map_size (mutation_map mutgen1) - 1) = Some 10 \<and>
   10 \<ge> t_sequence_length tables_bad_node \<and>
   map_option fst (mutgen_generate gsl0 env0 mutgen1 tables_bad_node False)
     = Some (Some (MSP_ERR_TSK TSK_ERR_NODE_OUT_OF_BOUNDS))"
  by code_simp

subsection \<open>\<^verbatim>\<open>mutgen_generate\<close>: the tables are cleared before sampling\<close>





subsection \<open>The registry is sorted by position\<close>

lemma cmp_site_less: "cmp_site a b < 0 \<longleftrightarrow> s_position a < s_position b"
  by (simp add: cmp_site_def)

lemma cmp_site_eq: "cmp_site a b = 0 \<longleftrightarrow> s_position a = s_position b"
  by (auto simp: cmp_site_def)

lemma avl_insert_node_set:
  "avl_insert_node tree item = Some tree' \<Longrightarrow> set tree' = insert item (set tree)"
  by (induction tree arbitrary: tree') (auto split: if_splits)

lemma avl_insert_node_sorted:
  "sorted_wrt (<) (map s_position tree) \<Longrightarrow> avl_insert_node tree item = Some tree'
   \<Longrightarrow> sorted_wrt (<) (map s_position tree')"
proof (induction tree arbitrary: tree')
  case Nil
  then show ?case by auto
next
  case (Cons x xs)
  show ?case
  proof (cases "cmp_site item x < 0")
    case True
    with Cons.prems show ?thesis
      by (fastforce simp: cmp_site_less)
  next
    case False
    with Cons.prems obtain ys where ys: "avl_insert_node xs item = Some ys" "tree' = x # ys"
      and gt: "s_position x < s_position item"
      by (auto simp: cmp_site_less cmp_site_eq split: if_splits)
    from Cons.prems(1) have "sorted_wrt (<) (map s_position xs)" by simp
    from Cons.IH[OF this ys(1)] have "sorted_wrt (<) (map s_position ys)" .
    moreover have "\<forall>y \<in> set ys. s_position x < s_position y"
      using avl_insert_node_set[OF ys(1)] gt Cons.prems(1) by auto
    ultimately show ?thesis using ys(2) by simp
  qed
qed

lemma avl_insert_node_refuses:
  "avl_insert_node tree item = None \<longleftrightarrow> (\<exists>x \<in> set tree. s_position x = s_position item)" 
  if "sorted_wrt (<) (map s_position tree)"
  using that
proof (induction tree)
  case Nil
  then show ?case by simp
next
  case (Cons x xs)
  then show ?case
    by (auto simp: cmp_site_less cmp_site_eq)
qed

lemma avl_search_None:
  "avl_search tree item = None \<longleftrightarrow> (\<forall>x \<in> set tree. s_position x \<noteq> s_position item)"
  by (auto simp: avl_search_def find_None_iff cmp_site_eq)

subsection \<open>Properties of the registry kept by sampling\<close>

lemma mutgen_add_mutation_sites:
  assumes "mutgen_add_mutation env self node position anc der = (ret, s')"
  shows "(ret = None \<and> avl_insert_node (sites self) (generated_site node position anc der) = Some (sites s'))
         \<or> (ret \<noteq> None \<and> sites s' = sites self)"
  using assms
  by (auto simp: mutgen_add_mutation_def generated_site_def Let_def split: prod.splits if_splits option.splits)

lemma mutgen_add_mutation_frame:
  assumes "mutgen_add_mutation env self node position anc der = (ret, s')"
  shows "rng s' = rng self \<and> mutation_map s' = mutation_map self \<and> alphabet s' = alphabet self
     \<and> start_time s' = start_time self \<and> end_time s' = end_time self \<and> block_size s' = block_size self"
  using assms
  by (auto simp: mutgen_add_mutation_def Let_def split: prod.splits if_splits option.splits)

lemma mutgen_add_mutation_inv:
  assumes "closed_under_generated P" "P (sites self)"
      and "mutgen_add_mutation env self node position anc der = (ret, s')"
  shows "P (sites s')"
  using mutgen_add_mutation_sites[OF assms(3)] assms(1,2)
  unfolding closed_under_generated_def by metis

lemma add_mutations_inv:
  assumes "closed_under_generated P"
  shows "P (sites self) \<Longrightarrow> add_mutations gsl env types child left right n self = Some (ret, s')
         \<Longrightarrow> P (sites s')"
proof (induction n arbitrary: self)
  case 0
  then show ?case by simp
next
  case (Suc n)
  from Suc.prems(2) obtain position r1 where
    sp: "sample_position gsl (sites self) left right (rng self) = Some (position, r1)"
    by (auto split: option.splits)
  show ?case
  proof (cases "left \<le> position \<and> position < right")
    case False
    with Suc.prems sp show ?thesis by auto
  next
    case True
    obtain ty r2 where u: "gsl_rng_uniform_int gsl r1 (length types) = (ty, r2)"
      by (cases "gsl_rng_uniform_int gsl r1 (length types)")
    show ?thesis
    proof (cases "array_get types ty")
      case (Inl f)
      with Suc.prems sp True u show ?thesis by auto
    next
      case (Inr ad)
      obtain anc der where ad: "ad = (anc, der)" by (cases ad)
      obtain r s1 where am: "mutgen_add_mutation env (self\<lparr>rng := r2\<rparr>) child position anc der = (r, s1)"
        by (cases "mutgen_add_mutation env (self\<lparr>rng := r2\<rparr>) child position anc der")
      have P1: "P (sites s1)"
        using mutgen_add_mutation_inv[OF assms _ am] Suc.prems(1) by simp
      show ?thesis
      proof (cases r)
        case None
        with Suc.prems(2) sp True u Inr ad am
        have "add_mutations gsl env types child left right n s1 = Some (ret, s')" by simp
        from Suc.IH[OF P1 this] show ?thesis .
      next
        case (Some e)
        with Suc.prems(2) sp True u Inr ad am have "s' = s1" by simp
        with P1 show ?thesis by simp
      qed
    qed
  qed
qed

lemma edge_intervals_inv:
  assumes "closed_under_generated P"
  shows "P (sites self) \<Longrightarrow>
     edge_intervals gsl env types m child bl left edge_right right map_index self = Some (ret, s')
     \<Longrightarrow> P (sites s')"
proof (induction gsl env types m child bl left edge_right right map_index self
        rule: edge_intervals.induct)
  case (1 gsl env types m child bl left edge_right right map_index self)
  note run = "1.prems"(2)[unfolded edge_intervals.simps[of gsl env types m child bl left edge_right right map_index self]]
  show ?case
  proof (cases "right = edge_right")
    case True
    with run "1.prems"(1) show ?thesis by simp
  next
    case False
    show ?thesis
    proof (cases "cell_get (map_position m) (map_index + 1)")
      case (Inl f)
      with run False "1.prems"(1) show ?thesis by simp
    next
      case (Inr p)
      show ?thesis
      proof (cases "cell_get (map_rate m) map_index")
        case (Inl f)
        with run False Inr "1.prems"(1) show ?thesis by simp
      next
        case rate: (Inr rate)
        obtain k r1 where po: "gsl_ran_poisson gsl (rng self) (bl * (min edge_right p - left) * rate) = (k, r1)"
          by (cases "gsl_ran_poisson gsl (rng self) (bl * (min edge_right p - left) * rate)")
        from run False Inr rate po obtain r s1 where
          am: "add_mutations gsl env types child left (min edge_right p) k (self\<lparr>rng := r1\<rparr>) = Some (r, s1)"
          by (auto split: option.splits)
        have P1: "P (sites s1)"
          using add_mutations_inv[OF assms _ am] "1.prems"(1) by simp
        show ?thesis
        proof (cases r)
          case (Some e)
          with run False Inr rate po am have "s' = s1" by simp
          with P1 show ?thesis by simp
        next
          case None
          with run False Inr rate po am have
            "edge_intervals gsl env types m child bl left edge_right (min edge_right p) (map_index + 1) s1
               = Some (ret, s')" by simp
          from "1.IH"[OF False Inr rate po[symmetric] am refl None P1 this]
          show ?thesis by simp
        qed
      qed
    qed
  qed
qed

subsection \<open>The import on an arena that fits\<close>

lemma tsk_blkalloc_get_ok:
  "n \<le> chunk_size a \<Longrightarrow>
   fst (tsk_blkalloc_get a n) \<and> chunk_size (snd (tsk_blkalloc_get a n)) = chunk_size a"
  by (simp add: tsk_blkalloc_get_def)

lemma tsk_blkalloc_get_chunk: "chunk_size (snd (tsk_blkalloc_get a n)) = chunk_size a"
  by (simp add: tsk_blkalloc_get_def)

lemma tsk_blkalloc_get_fst: "fst (tsk_blkalloc_get a n) \<longleftrightarrow> n \<le> chunk_size a"
  by (simp add: tsk_blkalloc_get_def)

lemma offsets_ok_le:
  assumes "offsets_ok n offs len" "i < n"
  shows "offs ! i \<le> offs ! (i + 1)" "offs ! (i + 1) \<le> len" "i + 1 < length offs"
proof -
  from assms have l: "length offs = n + 1" and s: "sorted offs" and e: "offs ! n = len"
    by (auto simp: offsets_ok_def)
  from assms(2) l show "i + 1 < length offs" by simp
  from s l assms(2) show "offs ! i \<le> offs ! (i + 1)"
    by (intro sorted_nth_mono) auto
  from s l assms(2) have "offs ! (i + 1) \<le> offs ! n"
    by (intro sorted_nth_mono) auto
  with e show "offs ! (i + 1) \<le> len" by simp
qed

lemma copy_cell_ok:
  assumes "offsets_ok n offs (length col)" "i < n" "length col \<le> chunk_size a"
  shows "\<exists>a'. copy_cell a col offs i = Inr (cell_bytes col offs i, a') \<and> chunk_size a' = chunk_size a"
proof -
  note o = offsets_ok_le[OF assms(1,2)]
  let ?len = "offs ! (i + 1) - offs ! i"
  have len: "?len \<le> chunk_size a" using o assms(3) by linarith
  obtain ok a' where g: "tsk_blkalloc_get a ?len = (ok, a')" by (cases "tsk_blkalloc_get a ?len")
  with tsk_blkalloc_get_ok[OF len] have ok: "ok" "chunk_size a' = chunk_size a" by auto
  have "copy_cell a col offs i = Inr (cell_bytes col offs i, a')"
    using o g ok by (simp add: copy_cell_def ebind_def array_get_def cell_bytes_def Let_def)
  with ok show ?thesis by blast
qed

lemma import_mutations_ok:
  assumes "offsets_ok (length (mt_rows mutations)) (mt_derived_state_offset mutations)
             (length (mt_derived_state mutations))"
      and "offsets_ok (length (mt_rows mutations)) (mt_metadata_offset mutations)
             (length (mt_metadata mutations))"
      and "length (mt_derived_state mutations) \<le> c" "length (mt_metadata mutations) \<le> c"
  shows "mutation_id + n \<le> length (mt_rows mutations) \<Longrightarrow> chunk_size a = c \<Longrightarrow>
     \<exists>a'. import_mutations mutations mutation_id n a
            = Inr (map (imported_mutation mutations) [mutation_id..<mutation_id + n], a')
          \<and> chunk_size a' = c"
proof (induction n arbitrary: mutation_id a)
  case 0
  then show ?case by simp
next
  case (Suc n)
  from Suc.prems have lt: "mutation_id < length (mt_rows mutations)" by simp
  from copy_cell_ok[OF assms(1) lt, of a] Suc.prems(2) assms(3)
  obtain a1 where a1: "copy_cell a (mt_derived_state mutations) (mt_derived_state_offset mutations) mutation_id
      = Inr (cell_bytes (mt_derived_state mutations) (mt_derived_state_offset mutations) mutation_id, a1)"
      "chunk_size a1 = c" by auto
  from copy_cell_ok[OF assms(2) lt, of a1] a1(2) assms(4)
  obtain a2 where a2: "copy_cell a1 (mt_metadata mutations) (mt_metadata_offset mutations) mutation_id
      = Inr (cell_bytes (mt_metadata mutations) (mt_metadata_offset mutations) mutation_id, a2)"
      "chunk_size a2 = c" by auto
  from Suc.IH[of "mutation_id + 1" a2] Suc.prems(1) a2(2)
  obtain a3 where a3: "import_mutations mutations (mutation_id + 1) n a2
            = Inr (map (imported_mutation mutations) [mutation_id + 1..<mutation_id + 1 + n], a3)"
      "chunk_size a3 = c" by auto
  have "[mutation_id..<mutation_id + Suc n] = mutation_id # [mutation_id + 1..<mutation_id + 1 + n]"
    by (simp add: upt_conv_Cons)
  then have "import_mutations mutations mutation_id (Suc n) a
            = Inr (map (imported_mutation mutations) [mutation_id..<mutation_id + Suc n], a3)"
    using lt a1(1) a2(1) a3(1)
    by (simp add: ebind_def array_get_def imported_mutation_def)
  with a3(2) show ?case by blast
qed

lemma run_end_takeWhile:
  "j \<le> length col \<Longrightarrow> run_end col v j = j + length (takeWhile (\<lambda>s. s = v) (drop j col))"
proof (induction col v j rule: run_end.induct)
  case (1 site_col site_id j)
  show ?case
  proof (cases "j < length site_col \<and> site_col ! j = site_id")
    case True
    then have "drop j site_col = site_id # drop (Suc j) site_col"
      using Cons_nth_drop_Suc[of j site_col] by simp
    with True "1.IH" show ?thesis
      by (subst run_end.simps) simp
  next
    case False
    have "takeWhile (\<lambda>s. s = site_id) (drop j site_col) = []"
    proof (cases "j < length site_col")
      case True
      with False have "site_col ! j \<noteq> site_id" by simp
      then show ?thesis using Cons_nth_drop_Suc[OF True, symmetric] by simp
    next
      case False
      then show ?thesis by simp
    qed
    with False show ?thesis by (subst run_end.simps) auto
  qed
qed

lemma run_end_site_run:
  "start \<le> length (mt_rows (t_mutations tables)) \<Longrightarrow>
   run_end (map r_site (mt_rows (t_mutations tables))) (int site_id) start
     = start + site_run tables site_id start"
  by (simp add: run_end_takeWhile site_run_def takeWhile_map drop_map comp_def)

lemma site_run_le:
  "start + site_run tables site_id start \<le> max start (length (mt_rows (t_mutations tables)))"
  unfolding site_run_def
  using length_takeWhile_le[of "\<lambda>r. r_site r = int site_id" "drop start (mt_rows (t_mutations tables))"]
  by simp

lemma integrity_offsets:
  assumes "tsk_table_collection_check_integrity tables = None"
  shows "offsets_ok (length (st_position (t_sites tables)))
           (st_ancestral_state_offset (t_sites tables)) (length (st_ancestral_state (t_sites tables)))"
    and "offsets_ok (length (st_position (t_sites tables)))
           (st_metadata_offset (t_sites tables)) (length (st_metadata (t_sites tables)))"
    and "offsets_ok (length (mt_rows (t_mutations tables)))
           (mt_derived_state_offset (t_mutations tables)) (length (mt_derived_state (t_mutations tables)))"
    and "offsets_ok (length (mt_rows (t_mutations tables)))
           (mt_metadata_offset (t_mutations tables)) (length (mt_metadata (t_mutations tables)))"
  using assms by (auto simp: tsk_table_collection_check_integrity_def split: if_splits)

lemma arena_fits_chunk:
  "chunk_size a' = chunk_size a \<Longrightarrow> arena_fits env tables a' = arena_fits env tables a"
  by (simp add: arena_fits_def)

lemma import_site_ok:
  assumes integ: "tsk_table_collection_check_integrity tables = None"
      and fits: "arena_fits env tables a"
      and sid: "site_id < length (st_position (t_sites tables))"
      and mid: "mutation_id \<le> length (mt_rows (t_mutations tables))"
  shows "\<exists>a'. import_site env tables site_id mutation_id a
           = Inr (rehydrated_site tables site_id mutation_id,
                  mutation_id + site_run tables site_id mutation_id, a')
         \<and> chunk_size a' = chunk_size a"
proof -
  let ?rows = "mt_rows (t_mutations tables)"
  let ?k = "site_run tables site_id mutation_id"
  note io = integrity_offsets[OF integ]
  have re: "run_end (map r_site ?rows) (int site_id) mutation_id = mutation_id + ?k"
    by (rule run_end_site_run[OF mid])
  have kle: "mutation_id + ?k \<le> length ?rows"
    using site_run_le[of mutation_id tables site_id] mid by simp
  from fits have f: "sizeof_site env \<le> chunk_size a" "sizeof_avl_node env \<le> chunk_size a"
     "length (st_ancestral_state (t_sites tables)) \<le> chunk_size a"
     "length (st_metadata (t_sites tables)) \<le> chunk_size a"
     "length (mt_derived_state (t_mutations tables)) \<le> chunk_size a"
     "length (mt_metadata (t_mutations tables)) \<le> chunk_size a"
     "(1 + length ?rows) * sizeof_mutation env \<le> chunk_size a"
    by (auto simp: arena_fits_def)
  have "?k * sizeof_mutation env \<le> (1 + length ?rows) * sizeof_mutation env"
    using kle by (intro mult_le_mono1) simp
  with f(7) have km: "?k * sizeof_mutation env \<le> chunk_size a" by simp
  obtain ok1 a1 where g1: "tsk_blkalloc_get a (sizeof_site env) = (ok1, a1)"
    by (cases "tsk_blkalloc_get a (sizeof_site env)")
  with tsk_blkalloc_get_ok[OF f(1)] have o1: "ok1" "chunk_size a1 = chunk_size a" by auto
  obtain ok2 a2 where g2: "tsk_blkalloc_get a1 (sizeof_avl_node env) = (ok2, a2)"
    by (cases "tsk_blkalloc_get a1 (sizeof_avl_node env)")
  with tsk_blkalloc_get_ok[of "sizeof_avl_node env" a1] f(2) o1
  have o2: "ok2" "chunk_size a2 = chunk_size a" by auto
  obtain ok3 a3 where g3: "tsk_blkalloc_get a2 (?k * sizeof_mutation env) = (ok3, a3)"
    by (cases "tsk_blkalloc_get a2 (?k * sizeof_mutation env)")
  with tsk_blkalloc_get_ok[of "?k * sizeof_mutation env" a2] km o2
  have o3: "ok3" "chunk_size a3 = chunk_size a" by auto
  from copy_cell_ok[OF io(1) sid, of a3] f(3) o3
  obtain a4 where c4: "copy_cell a3 (st_ancestral_state (t_sites tables))
       (st_ancestral_state_offset (t_sites tables)) site_id
     = Inr (cell_bytes (st_ancestral_state (t_sites tables))
              (st_ancestral_state_offset (t_sites tables)) site_id, a4)"
     "chunk_size a4 = chunk_size a" by auto
  from copy_cell_ok[OF io(2) sid, of a4] f(4) c4(2)
  obtain a5 where c5: "copy_cell a4 (st_metadata (t_sites tables))
       (st_metadata_offset (t_sites tables)) site_id
     = Inr (cell_bytes (st_metadata (t_sites tables)) (st_metadata_offset (t_sites tables)) site_id, a5)"
     "chunk_size a5 = chunk_size a" by auto
  from import_mutations_ok[OF io(3) io(4) f(5) f(6) kle c5(2)]
  obtain a6 where c6: "import_mutations (t_mutations tables) mutation_id ?k a5
            = Inr (map (imported_mutation (t_mutations tables)) [mutation_id..<mutation_id + ?k], a6)"
     "chunk_size a6 = chunk_size a" by auto
  have "import_site env tables site_id mutation_id a
           = Inr (rehydrated_site tables site_id mutation_id, mutation_id + ?k, a6)"
    unfolding import_site_def Let_def re
    using g1 g2 g3 o1(1) o2(1) o3(1) c4(1) c5(1) c6(1) sid
    by (simp add: ebind_def array_get_def rehydrated_site_def)
  with c6(2) show ?thesis by blast
qed

lemma initialise_sites_loop_preload:
  "tsk_table_collection_check_integrity tables = None \<Longrightarrow>
     arena_fits env tables (allocator self) \<Longrightarrow>
     mutation_id \<le> length (mt_rows (t_mutations tables)) \<Longrightarrow>
     \<exists>a'. initialise_sites_loop env tables site_id mutation_id self
             = (fst (preload_from tables site_id mutation_id (sites self)),
                self\<lparr>allocator := a',
                     sites := snd (preload_from tables site_id mutation_id (sites self))\<rparr>)
          \<and> chunk_size a' = chunk_size (allocator self)"
proof (induction env tables site_id mutation_id self rule: initialise_sites_loop.induct)
  case (1 env tables site_id mutation_id self)
  show ?case
  proof (cases "site_id < length (st_position (t_sites tables))")
    case False
    then have "initialise_sites_loop env tables site_id mutation_id self = (None, self)"
      by (subst initialise_sites_loop.simps) simp
    moreover from False have "preload_from tables site_id mutation_id (sites self) = (None, sites self)"
      by (subst preload_from.simps) simp
    ultimately show ?thesis
      by (intro exI[of _ "allocator self"]) simp
  next
    case True
    let ?k = "site_run tables site_id mutation_id"
    let ?site = "rehydrated_site tables site_id mutation_id"
    note integ = "1.prems"(1)
    from import_site_ok[OF integ "1.prems"(2) True "1.prems"(3)]
    obtain a1 where imp: "import_site env tables site_id mutation_id (allocator self)
           = Inr (?site, mutation_id + ?k, a1)" and c1: "chunk_size a1 = chunk_size (allocator self)"
      by auto
    show ?thesis
    proof (cases "avl_insert_node (sites self) ?site")
      case None
      with True imp have "initialise_sites_loop env tables site_id mutation_id self
          = (Some MSP_ERR_DUPLICATE_SITE_POSITION, self\<lparr>allocator := a1\<rparr>)"
        by (subst initialise_sites_loop.simps) simp
      moreover from True None have "preload_from tables site_id mutation_id (sites self)
          = (Some MSP_ERR_DUPLICATE_SITE_POSITION, sites self)"
        by (subst preload_from.simps) simp
      ultimately show ?thesis using c1
        by (intro exI[of _ a1]) simp
    next
      case (Some tree)
      let ?s1 = "self\<lparr>allocator := a1, sites := tree\<rparr>"
      have fits1: "arena_fits env tables (allocator ?s1)"
        using "1.prems"(2) c1 by (simp add: arena_fits_def)
      have kle: "mutation_id + ?k \<le> length (mt_rows (t_mutations tables))"
        using site_run_le[of mutation_id tables site_id] "1.prems"(3) by simp
      from "1.IH"[OF True imp refl refl Some integ fits1 kle]
      obtain a' where rec: "initialise_sites_loop env tables (site_id + 1) (mutation_id + ?k) ?s1
             = (fst (preload_from tables (site_id + 1) (mutation_id + ?k) tree),
                ?s1\<lparr>allocator := a',
                     sites := snd (preload_from tables (site_id + 1) (mutation_id + ?k) tree)\<rparr>)"
          and c': "chunk_size a' = chunk_size a1" by auto
      have l: "initialise_sites_loop env tables site_id mutation_id self
             = initialise_sites_loop env tables (site_id + 1) (mutation_id + ?k) ?s1"
        using True imp Some by (subst initialise_sites_loop.simps) simp
      have p: "preload_from tables site_id mutation_id (sites self)
             = preload_from tables (site_id + 1) (mutation_id + ?k) tree"
        using True Some by (subst preload_from.simps) simp
      show ?thesis unfolding l p rec using c' c1
        by (intro exI[of _ a']) simp
    qed
  qed
qed

subsection \<open>Sampling does not depend on the arena\<close>

lemma arena_equiv_fields:
  assumes "arena_equiv env s t"
  shows "alphabet s = alphabet t" "rng s = rng t" "start_time s = start_time t"
    "end_time s = end_time t" "sites s = sites t" "mutation_map s = mutation_map t"
proof -
  from assms have e: "s\<lparr>allocator := allocator t, block_size := block_size t\<rparr> = t"
    by (simp add: arena_equiv_def)
  show "alphabet s = alphabet t" using arg_cong[OF e, of alphabet] by simp
  show "rng s = rng t" using arg_cong[OF e, of rng] by simp
  show "start_time s = start_time t" using arg_cong[OF e, of start_time] by simp
  show "end_time s = end_time t" using arg_cong[OF e, of end_time] by simp
  show "sites s = sites t" using arg_cong[OF e, of sites] by simp
  show "mutation_map s = mutation_map t" using arg_cong[OF e, of mutation_map] by simp
qed

lemma arena_equivI:
  assumes "alphabet s = alphabet t" "rng s = rng t" "start_time s = start_time t"
    "end_time s = end_time t" "sites s = sites t" "mutation_map s = mutation_map t"
    "mutgen_t.more s = mutgen_t.more t" "min_fits env s" "min_fits env t"
  shows "arena_equiv env s t"
  using assms unfolding arena_equiv_def by (cases s; cases t) simp

lemma arena_equiv_rng:
  "arena_equiv env s t \<Longrightarrow> arena_equiv env (s\<lparr>rng := r\<rparr>) (t\<lparr>rng := r\<rparr>)"
  unfolding arena_equiv_def min_fits_def by (cases s; cases t) auto

lemma mutgen_add_mutation_rel:
  assumes "arena_equiv env s t"
  shows "rel_prod (=) (arena_equiv env)
           (mutgen_add_mutation env s node position anc der)
           (mutgen_add_mutation env t node position anc der)"
proof -
  from assms have ms: "min_fits env s" and mt: "min_fits env t" by (auto simp: arena_equiv_def)
  note f = arena_equiv_fields[OF assms]
  define a1 where "a1 = snd (tsk_blkalloc_get (snd (tsk_blkalloc_get (snd (tsk_blkalloc_get
     (allocator s) (sizeof_site env))) (sizeof_mutation env))) (sizeof_avl_node env))"
  define a2 where "a2 = snd (tsk_blkalloc_get (snd (tsk_blkalloc_get (snd (tsk_blkalloc_get
     (allocator t) (sizeof_site env))) (sizeof_mutation env))) (sizeof_avl_node env))"
  have cs: "chunk_size a1 = chunk_size (allocator s)" "chunk_size a2 = chunk_size (allocator t)"
    by (simp_all add: a1_def a2_def tsk_blkalloc_get_chunk)
  let ?site = "generated_site node position anc der"
  have rs: "mutgen_add_mutation env s node position anc der =
     (case avl_insert_node (sites s) ?site of
        None \<Rightarrow> (Some FAULT_ASSERT, s\<lparr>allocator := a1\<rparr>)
      | Some tree \<Rightarrow> (None, s\<lparr>allocator := a1, sites := tree\<rparr>))"
    using ms unfolding mutgen_add_mutation_def a1_def generated_site_def min_fits_def
    by (simp add: split_beta Let_def tsk_blkalloc_get_fst tsk_blkalloc_get_chunk)
  have rt: "mutgen_add_mutation env t node position anc der =
     (case avl_insert_node (sites t) ?site of
        None \<Rightarrow> (Some FAULT_ASSERT, t\<lparr>allocator := a2\<rparr>)
      | Some tree \<Rightarrow> (None, t\<lparr>allocator := a2, sites := tree\<rparr>))"
    using mt unfolding mutgen_add_mutation_def a2_def generated_site_def min_fits_def
    by (simp add: split_beta Let_def tsk_blkalloc_get_fst tsk_blkalloc_get_chunk)
  have e1: "arena_equiv env (s\<lparr>allocator := a1\<rparr>) (t\<lparr>allocator := a2\<rparr>)"
    using assms cs unfolding arena_equiv_def min_fits_def by (cases s; cases t) auto
  have e2: "\<And>tree. arena_equiv env (s\<lparr>allocator := a1, sites := tree\<rparr>) (t\<lparr>allocator := a2, sites := tree\<rparr>)"
    using assms cs unfolding arena_equiv_def min_fits_def by (cases s; cases t) auto
  show ?thesis unfolding rs rt f(5) using e1 e2
    by (cases "avl_insert_node (sites t) ?site") simp_all
qed

lemma add_mutations_rel:
  "arena_equiv env s t \<Longrightarrow>
   rel_option (rel_prod (=) (arena_equiv env))
     (add_mutations gsl env types child left right n s)
     (add_mutations gsl env types child left right n t)"
proof (induction n arbitrary: s t)
  case 0
  then show ?case by simp
next
  case (Suc n)
  note f = arena_equiv_fields[OF Suc.prems]
  show ?case
  proof (cases "sample_position gsl (sites t) left right (rng t)")
    case None
    then show ?thesis using f by simp
  next
    case (Some pr)
    obtain position r1 where pr: "pr = (position, r1)" by (cases pr)
    show ?thesis
    proof (cases "left \<le> position \<and> position < right")
      case False
      with Some pr f arena_equiv_rng[OF Suc.prems, of r1] show ?thesis by simp
    next
      case True
      obtain ty r2 where u: "gsl_rng_uniform_int gsl r1 (length types) = (ty, r2)"
        by (cases "gsl_rng_uniform_int gsl r1 (length types)")
      note e2 = arena_equiv_rng[OF Suc.prems, of r2]
      show ?thesis
      proof (cases "array_get types ty")
        case (Inl e)
        with Some pr f True u e2 show ?thesis by simp
      next
        case (Inr ad)
        obtain anc der where ad: "ad = (anc, der)" by (cases ad)
        obtain rs s1 where as: "mutgen_add_mutation env (s\<lparr>rng := r2\<rparr>) child position anc der = (rs, s1)"
          by (cases "mutgen_add_mutation env (s\<lparr>rng := r2\<rparr>) child position anc der")
        obtain rt t1 where at: "mutgen_add_mutation env (t\<lparr>rng := r2\<rparr>) child position anc der = (rt, t1)"
          by (cases "mutgen_add_mutation env (t\<lparr>rng := r2\<rparr>) child position anc der")
        from mutgen_add_mutation_rel[OF e2, of child position anc der] as at
        have r: "rs = rt" "arena_equiv env s1 t1" by auto
        show ?thesis
        proof (cases rt)
          case None
          with Some pr f True u Inr ad as at r Suc.IH[OF r(2)] show ?thesis by simp
        next
          case (Some e)
          with \<open>sample_position gsl (sites t) left right (rng t) = Some pr\<close>
            pr f True u Inr ad as at r show ?thesis by simp
        qed
      qed
    qed
  qed
qed

lemma edge_intervals_rel:
  "arena_equiv env s t \<Longrightarrow>
   rel_option (rel_prod (=) (arena_equiv env))
     (edge_intervals gsl env types m child bl left edge_right right map_index s)
     (edge_intervals gsl env types m child bl left edge_right right map_index t)"
proof (induction gsl env types m child bl left edge_right right map_index s arbitrary: t
        rule: edge_intervals.induct)
  case (1 gsl env types m child bl left edge_right right map_index s)
  note f = arena_equiv_fields[OF "1.prems"]
  note us = edge_intervals.simps[of gsl env types m child bl left edge_right right map_index s]
  note ut = edge_intervals.simps[of gsl env types m child bl left edge_right right map_index t]
  show ?case
  proof (cases "right = edge_right")
    case True
    with "1.prems" show ?thesis unfolding us ut by simp
  next
    case False
    show ?thesis
    proof (cases "cell_get (map_position m) (map_index + 1)")
      case (Inl e)
      with False "1.prems" show ?thesis unfolding us ut by simp
    next
      case (Inr p)
      show ?thesis
      proof (cases "cell_get (map_rate m) map_index")
        case (Inl e)
        with False Inr "1.prems" show ?thesis unfolding us ut by simp
      next
        case rate: (Inr rate)
        obtain k r1 where po: "gsl_ran_poisson gsl (rng s) (bl * (min edge_right p - left) * rate) = (k, r1)"
          by (cases "gsl_ran_poisson gsl (rng s) (bl * (min edge_right p - left) * rate)")
        note am = add_mutations_rel[OF arena_equiv_rng[OF "1.prems", of r1],
                    of gsl types child left "min edge_right p" k]
        show ?thesis
        proof (cases "add_mutations gsl env types child left (min edge_right p) k (s\<lparr>rng := r1\<rparr>)")
          case None
          with am have "add_mutations gsl env types child left (min edge_right p) k (t\<lparr>rng := r1\<rparr>) = None"
            by (simp add: option_rel_Some1 rel_option_None1)
          with None False Inr rate po f show ?thesis unfolding us ut by simp
        next
          case (Some rs1)
          obtain rs s1 where rs1: "rs1 = (rs, s1)" by (cases rs1)
          from am Some rs1 obtain t1 where
            at: "add_mutations gsl env types child left (min edge_right p) k (t\<lparr>rng := r1\<rparr>) = Some (rs, t1)"
            and e1: "arena_equiv env s1 t1"
            by (auto simp: option_rel_Some1)
          show ?thesis
          proof (cases rs)
            case (Some e)
            with \<open>add_mutations gsl env types child left (min edge_right p) k (s\<lparr>rng := r1\<rparr>) = Some rs1\<close>
              rs1 at e1 False Inr rate po f show ?thesis unfolding us ut by simp
          next
            case None
            from "1.IH"[OF False Inr rate po[symmetric]
                \<open>add_mutations gsl env types child left (min edge_right p) k (s\<lparr>rng := r1\<rparr>) = Some rs1\<close>
                rs1[symmetric] None e1]
            show ?thesis
              using \<open>add_mutations gsl env types child left (min edge_right p) k (s\<lparr>rng := r1\<rparr>) = Some rs1\<close>
                rs1 at None False Inr rate po f unfolding us ut by simp
          qed
        qed
      qed
    qed
  qed
qed

lemma generate_edge_rel:
  assumes "arena_equiv env s t"
  shows "rel_option (rel_prod (=) (arena_equiv env))
     (generate_edge gsl env tables types edge s) (generate_edge gsl env tables types edge t)"
proof -
  note f = arena_equiv_fields[OF assms]
  show ?thesis
    unfolding generate_edge_def Let_def f
    using assms edge_intervals_rel[OF assms]
    by (auto split: sum.splits prod.splits)
qed

lemma generate_edges_rel:
  "arena_equiv env s t \<Longrightarrow>
   rel_option (rel_prod (=) (arena_equiv env))
     (generate_edges gsl env tables types edges s) (generate_edges gsl env tables types edges t)"
proof (induction edges arbitrary: s t)
  case Nil
  then show ?case by simp
next
  case (Cons edge edges)
  from generate_edge_rel[OF Cons.prems, of gsl tables types edge]
  show ?case
  proof (cases rule: option.rel_cases)
    case None
    then show ?thesis by simp
  next
    case (Some x y)
    obtain r s1 where x: "x = (r, s1)" by (cases x)
    with Some obtain t1 where y: "y = (r, t1)" and e: "arena_equiv env s1 t1"
      by (cases y) auto
    from Some x y e Cons.IH[OF e] show ?thesis
      by (cases r) simp_all
  qed
qed

subsection \<open>The steps before sampling\<close>

lemma init_block_size_ge:
  fixes env :: env and bs :: nat and tables :: tsk_table_collection_t
  shows "128 \<le> init_block_size env bs tables"
  "(if bs = 0 then 8192 else bs) \<le> init_block_size env bs tables"
  "1 + length (st_ancestral_state (t_sites tables)) \<le> init_block_size env bs tables"
  "1 + length (st_metadata (t_sites tables)) \<le> init_block_size env bs tables"
  "1 + length (mt_derived_state (t_mutations tables)) \<le> init_block_size env bs tables"
  "1 + length (mt_metadata (t_mutations tables)) \<le> init_block_size env bs tables"
  "(1 + length (mt_rows (t_mutations tables))) * sizeof_mutation env \<le> init_block_size env bs tables"
  unfolding init_block_size_def Let_def by (simp_all add: le_max_iff_disj del: max.bounded_iff)

lemma init_block_size_fits:
  assumes "sizeof_site env \<le> 128" "sizeof_avl_node env \<le> 128"
      and "chunk_size a = init_block_size env bs tables"
  shows "arena_fits env tables a"
proof -
  have "sizeof_mutation env \<le> (1 + length (mt_rows (t_mutations tables))) * sizeof_mutation env"
    by simp
  with init_block_size_ge(7)[where env=env and bs=bs and tables=tables]
  have "sizeof_mutation env \<le> init_block_size env bs tables" by linarith
  with assms init_block_size_ge[where env=env and bs=bs and tables=tables] show ?thesis
    unfolding arena_fits_def by auto
qed

lemma arena_fits_min_fits: "arena_fits env tables (allocator self) \<Longrightarrow> min_fits env self"
  by (simp add: arena_fits_def min_fits_def)

lemma mutgen_init_allocator_result:
  "mutgen_init_allocator env self tables =
     (if malloc_ok env (init_block_size env (block_size self) tables)
      then (None, self\<lparr>block_size := init_block_size env (block_size self) tables,
                       allocator := \<lparr>chunk_size = init_block_size env (block_size self) tables,
                                      num_chunks = 1, blk_top = 0\<rparr>\<rparr>)
      else (Some (MSP_ERR_TSK TSK_ERR_NO_MEMORY),
            self\<lparr>block_size := init_block_size env (block_size self) tables,
                 allocator := \<lparr>chunk_size = 0, num_chunks = 0, blk_top = 0\<rparr>\<rparr>))"
  by (simp add: mutgen_init_allocator_def tsk_blkalloc_init_def msp_set_tsk_error_def Let_def)

lemma generate_preamble_ok:
  assumes "malloc_ok env (init_block_size env (block_size self) tables)"
      and "tsk_table_collection_check_integrity tables = None"
      and "map_ready self tables"
  shows "generate_preamble env self tables keep_sites =
     (if keep_sites then mutget_initialise_sites env (prepared env self tables) tables
      else (None, prepared env self tables))"
proof -
  let ?m = "mutation_map self"
  from assms(3) obtain p where p: "0 < map_size ?m" "map_size ?m < length (map_position ?m)"
     "map_position ?m ! (map_size ?m - 1) = Some p" "p < t_sequence_length tables"
    by (auto simp: map_ready_def split: option.splits)
  have cell: "cell_get ((map_position ?m)[map_size ?m := Some (t_sequence_length tables)]) (map_size ?m - 1) = Inr p"
    using p by (simp add: cell_get_def)
  show ?thesis
    unfolding generate_preamble_def mutgen_init_allocator_result
    using assms(1,2) p cell
    by (simp add: Let_def prepared_def)
qed

lemma generate_preamble_not_ready:
  assumes "\<not> (malloc_ok env (init_block_size env (block_size self) tables)
            \<and> tsk_table_collection_check_integrity tables = None \<and> map_ready self tables)"
  shows "fst (generate_preamble env self tables keep_sites) \<noteq> None
     \<and> fst (generate_preamble env self tables keep_sites) \<noteq> Some MSP_ERR_NO_MEMORY
     \<and> sites (snd (generate_preamble env self tables keep_sites)) = []
     \<and> rng (snd (generate_preamble env self tables keep_sites)) = rng self"
  using assms
  unfolding generate_preamble_def mutgen_init_allocator_result map_ready_def
  by (auto simp: Let_def cell_get_def msp_set_tsk_error_def split: option.splits sum.splits if_splits)

lemma preload_from_status:
  "fst (preload_from tables site_id start tree) \<in> {None, Some MSP_ERR_DUPLICATE_SITE_POSITION}"
proof (induction tables site_id start tree rule: preload_from.induct)
  case (1 tables site_id start tree)
  then show ?case
    by (subst preload_from.simps) (auto split: option.splits)
qed

lemma run_start_le: "run_start tables i \<le> length (mt_rows (t_mutations tables))"
proof (induction i)
  case 0
  then show ?case by simp
next
  case (Suc i)
  then show ?case using site_run_le[of "run_start tables i" tables i] by simp
qed

lemma mutget_initialise_sites_preload:
  assumes "tsk_table_collection_check_integrity tables = None"
      and "arena_fits env tables (allocator self)"
  shows "\<exists>a'. mutget_initialise_sites env self tables
             = (fst (preload_from tables 0 0 (sites self)),
                self\<lparr>allocator := a', sites := snd (preload_from tables 0 0 (sites self))\<rparr>)
          \<and> chunk_size a' = chunk_size (allocator self)"
  unfolding mutget_initialise_sites_def
  using initialise_sites_loop_preload[OF assms, of 0 0] by simp

subsection \<open>The size of the arena's blocks\<close>


lemma generate_preamble_no_memory_error:
  assumes "sizeof_site env \<le> 128" "sizeof_avl_node env \<le> 128"
  shows "fst (generate_preamble env self tables keep_sites) \<noteq> Some MSP_ERR_NO_MEMORY"
proof (cases "malloc_ok env (init_block_size env (block_size self) tables)
            \<and> tsk_table_collection_check_integrity tables = None \<and> map_ready self tables")
  case False
  from generate_preamble_not_ready[OF this] show ?thesis by simp
next
  case True
  then have pre: "generate_preamble env self tables keep_sites =
     (if keep_sites then mutget_initialise_sites env (prepared env self tables) tables
      else (None, prepared env self tables))"
    by (intro generate_preamble_ok) auto
  have "arena_fits env tables (allocator (prepared env self tables))"
    by (rule init_block_size_fits[OF assms]) (simp add: prepared_def)
  from mutget_initialise_sites_preload[OF _ this] True
  have "fst (mutget_initialise_sites env (prepared env self tables) tables)
          = fst (preload_from tables 0 0 (sites (prepared env self tables)))" by auto
  with preload_from_status[of tables 0 0 "sites (prepared env self tables)"] pre
  show ?thesis by (auto split: if_splits)
qed


end
